theory Spec2Isabelle
  imports Complex_Main
begin

section \<open>The extent metadata catalog (LokiExtentMetadata.ts)\<close>

subsection \<open>Data\<close>

text \<open>
  Modelled from the spec: the declaration of \<open>IExtentModel\<close> (IExtentMetadata.ts) is not
  among the sources. The spec's extent has an id, a destination, a relative path, a size
  and a last-modification time; the methods of LokiExtentMetadata.ts read the fields
  \<open>id\<close>, \<open>persistencyId\<close>, \<open>size\<close> and \<open>LastModifyInMS\<close>.  The fields \<open>id\<close> and
  \<open>size\<close> carry a suffix because HOL has constants of these names.  The numbers a
  record stores (\<open>size\<close>, \<open>LastModifyInMS\<close>, and the \<open>$loki\<close> and \<open>maxId\<close> of the
  document store) hold integers and are \<open>int\<close>; the numbers passed to \<open>listExtents\<close>,
  which the source does not validate, are the JavaScript numbers defined below.
\<close>

record IExtentModel =
  id_ext :: string
  persistencyId :: string
  path :: string
  size_ext :: int
  LastModifyInMS :: int

text \<open>
  A document of the collection: the inserted object together with the sequence number
  \<open>$loki\<close> that the document store assigns at insertion.
\<close>

record doc =
  loki :: int
  obj :: IExtentModel

text \<open>
  The document store (the lokijs library) keeps the documents of a collection in an
  array in insertion order and remembers the highest sequence number it has handed out.
\<close>

record collection =
  data :: "doc list"
  maxId :: int

subsection \<open>JavaScript numbers\<close>

text \<open>
  The arguments \<open>maxResults\<close>, \<open>marker\<close> and \<open>UnmodifiedTime\<close> of \<open>listExtents\<close> are
  JavaScript numbers, and so is \<open>queryTime.getTime()\<close>: IEEE 754 doubles, with no
  validation in the source.  A number is a finite double, given by the rational it
  denotes, or \<open>NaN\<close>, \<open>Infinity\<close> or \<open>-Infinity\<close>.  The two zeros are one value here:
  no operation of the catalog tells them apart.
\<close>

datatype number = Num rat | NaN | Infinity | NegInfinity

text \<open>
  Rounding to the nearest double, ties to even: 53 significant bits, the least
  exponent of a subnormal \<open>-1074\<close>, overflow to infinity from \<open>2 ^ 1024\<close> on.
  \<open>floor_log2 a\<close> is the exponent \<open>e\<close> with \<open>2 ^ e \<le> a < 2 ^ (e + 1)\<close>, for \<open>a > 0\<close>.
\<close>

definition pow2 :: "int \<Rightarrow> rat" where
  "pow2 e = (if 0 \<le> e then 2 ^ nat e else 1 / 2 ^ nat (- e))"

fun bit_length :: "nat \<Rightarrow> nat" where
  "bit_length n = (if n = 0 then 0 else Suc (bit_length (n div 2)))"

declare bit_length.simps [simp del]

definition floor_log2 :: "rat \<Rightarrow> int" where
  "floor_log2 a =
     (let d = int (bit_length (nat (fst (quotient_of a))))
              - int (bit_length (nat (snd (quotient_of a))))
      in if pow2 d \<le> a then d else d - 1)"

definition round_half_even :: "rat \<Rightarrow> int" where
  "round_half_even r =
     (let f = \<lfloor>r\<rfloor>; d = r - of_int f
      in if d < 1 / 2 then f else if 1 / 2 < d then f + 1 else if even f then f else f + 1)"

definition round_double :: "rat \<Rightarrow> number" where
  "round_double x =
     (if x = 0 then Num 0
      else let a = \<bar>x\<bar>;
               q = max (floor_log2 a - 52) (- 1074);
               r = of_int (round_half_even (a / pow2 q)) * pow2 q
           in if pow2 1024 \<le> r then (if 0 < x then Infinity else NegInfinity)
              else Num (if 0 < x then r else - r))"

text \<open>The product \<open>a * b\<close> and the difference \<open>a - b\<close> of two numbers.\<close>

fun js_mul :: "number \<Rightarrow> number \<Rightarrow> number" where
  "js_mul (Num a) (Num b) = round_double (a * b)"
| "js_mul NaN _ = NaN"
| "js_mul _ NaN = NaN"
| "js_mul (Num a) Infinity = (if a = 0 then NaN else if 0 < a then Infinity else NegInfinity)"
| "js_mul (Num a) NegInfinity = (if a = 0 then NaN else if 0 < a then NegInfinity else Infinity)"
| "js_mul Infinity (Num b) = (if b = 0 then NaN else if 0 < b then Infinity else NegInfinity)"
| "js_mul NegInfinity (Num b) = (if b = 0 then NaN else if 0 < b then NegInfinity else Infinity)"
| "js_mul Infinity Infinity = Infinity"
| "js_mul Infinity NegInfinity = NegInfinity"
| "js_mul NegInfinity Infinity = NegInfinity"
| "js_mul NegInfinity NegInfinity = Infinity"

fun js_sub :: "number \<Rightarrow> number \<Rightarrow> number" where
  "js_sub (Num a) (Num b) = round_double (a - b)"
| "js_sub NaN _ = NaN"
| "js_sub _ NaN = NaN"
| "js_sub Infinity Infinity = NaN"
| "js_sub NegInfinity NegInfinity = NaN"
| "js_sub Infinity _ = Infinity"
| "js_sub NegInfinity _ = NegInfinity"
| "js_sub (Num a) Infinity = NegInfinity"
| "js_sub (Num a) NegInfinity = Infinity"

text \<open>
  \<open>docs.length < maxResults\<close>: the comparison of an array length with a number; every
  comparison with \<open>NaN\<close> is false.
\<close>

definition length_less :: "nat \<Rightarrow> number \<Rightarrow> bool" where
  "length_less len n =
     (case n of Num r \<Rightarrow> of_nat len < r | NaN \<Rightarrow> False | Infinity \<Rightarrow> True | NegInfinity \<Rightarrow> False)"

text \<open>
  \<open>Array.prototype.slice(0, end)\<close> on an array of length \<open>len\<close> returns its first
  \<open>slice_end end len\<close> elements: \<open>end\<close> is truncated towards zero (\<open>NaN\<close> is 0), a
  negative \<open>end\<close> counts from the end of the array, and the result stays within the
  array.
\<close>

definition slice_end :: "number \<Rightarrow> nat \<Rightarrow> nat" where
  "slice_end e len =
     (case e of
        Num r \<Rightarrow> (let k = (if 0 \<le> r then \<lfloor>r\<rfloor> else \<lceil>r\<rceil>)
                  in if k < 0 then nat (int len + k) else min (nat k) len)
      | NaN \<Rightarrow> 0
      | Infinity \<Rightarrow> len
      | NegInfinity \<Rightarrow> 0)"

text \<open>
  The comparisons \<open>$lt\<close> and \<open>$gt\<close> of the document store (lokijs 1.5), between a
  stored integer and the number of the query.  They are the comparisons of numbers but
  for \<open>NaN\<close>, which the store orders below every number: nothing is \<open>$lt NaN\<close> and
  every number is \<open>$gt NaN\<close>.
\<close>

definition loki_lt :: "int \<Rightarrow> number \<Rightarrow> bool" where
  "loki_lt a n =
     (case n of Num r \<Rightarrow> of_int a < r | NaN \<Rightarrow> False | Infinity \<Rightarrow> True | NegInfinity \<Rightarrow> False)"

definition loki_gt :: "int \<Rightarrow> number \<Rightarrow> bool" where
  "loki_gt a n =
     (case n of Num r \<Rightarrow> r < of_int a | NaN \<Rightarrow> True | Infinity \<Rightarrow> False | NegInfinity \<Rightarrow> True)"

subsection \<open>Queries, errors and the catalog object\<close>

text \<open>
  The query objects the catalog builds: an optional exact \<open>id\<close>, an optional strict upper
  bound on \<open>LastModifyInMS\<close> (\<open>$lt\<close>) and a strict lower bound on \<open>$loki\<close> (\<open>$gt\<close>).
  The bound \<open>$gt: undefined\<close> compares as true against every number in the document
  store, so an undefined marker and an absent constraint are both \<open>None\<close>.
\<close>

record query =
  q_id :: "string option"
  q_LastModifyInMS_lt :: "number option"
  q_loki_gt :: "number option"

datatype error = TypeError | DbError

text \<open>
  The catalog object: \<open>db\<close> is what \<open>this.db.getCollection(EXTENTS_COLLECTION)\<close> returns
  (\<open>None\<close> is JavaScript's \<open>null\<close>: the collection does not exist yet), with the two
  private flags of the class.
\<close>

record LokiExtentMetadata =
  db :: "collection option"
  initialized :: bool
  closed :: bool

subsection \<open>The operations of the document store used by the catalog\<close>

definition matches :: "query \<Rightarrow> doc \<Rightarrow> bool" where
  "matches q d =
     ((case q_id q of None \<Rightarrow> True | Some i \<Rightarrow> id_ext (obj d) = i) \<and>
      (case q_LastModifyInMS_lt q of
         None \<Rightarrow> True | Some t \<Rightarrow> loki_lt (LastModifyInMS (obj d)) t) \<and>
      (case q_loki_gt q of None \<Rightarrow> True | Some m \<Rightarrow> loki_gt (loki d) m))"

definition by_id :: "string \<Rightarrow> query" where
  "by_id i = \<lparr>q_id = Some i, q_LastModifyInMS_lt = None, q_loki_gt = None\<rparr>"

definition findOne :: "query \<Rightarrow> collection \<Rightarrow> doc option" where
  "findOne q c = List.find (matches q) (data c)"

definition insert_doc :: "IExtentModel \<Rightarrow> collection \<Rightarrow> collection" where
  "insert_doc e c =
     c\<lparr>data := data c @ [\<lparr>loki = maxId c + 1, obj = e\<rparr>], maxId := maxId c + 1\<rparr>"

definition update_doc :: "doc \<Rightarrow> collection \<Rightarrow> collection" where
  "update_doc d c = c\<lparr>data := map (\<lambda>x. if loki x = loki d then d else x) (data c)\<rparr>"

definition find_docs :: "query \<Rightarrow> collection \<Rightarrow> doc list" where
  "find_docs q c = filter (matches q) (data c)"

text \<open>\<open>limit(qty)\<close> of the document store is \<open>slice(0, qty)\<close> of the result rows.\<close>

definition limit :: "number \<Rightarrow> doc list \<Rightarrow> doc list" where
  "limit qty ds = take (slice_end qty (length ds)) ds"

definition findAndRemove :: "query \<Rightarrow> collection \<Rightarrow> collection" where
  "findAndRemove q c = c\<lparr>data := filter (\<lambda>d. \<not> matches q d) (data c)\<rparr>"

definition addCollection :: collection where
  "addCollection = \<lparr>data = [], maxId = 0\<rparr>"

subsection \<open>The catalog\<close>

definition new_LokiExtentMetadata :: LokiExtentMetadata where
  "new_LokiExtentMetadata = \<lparr>db = None, initialized = False, closed = False\<rparr>"

definition isInitialized :: "LokiExtentMetadata \<Rightarrow> bool" where
  "isInitialized s = initialized s"

definition isClosed :: "LokiExtentMetadata \<Rightarrow> bool" where
  "isClosed s = closed s"

text \<open>
  What \<open>init\<close> meets on disk: no file (\<open>stat\<close> fails), a file that fails to load, or a
  file that loads and replaces the collections of the database (\<open>Loaded None\<close>: the file
  holds no extents collection).
\<close>

datatype load_result = NoFile | LoadError | Loaded "collection option"

text \<open>
  \<open>init\<close> and \<open>close\<close> return the error they reject with, if any, and the object as it is
  left.  \<open>save_ok\<close> and \<open>close_ok\<close> are the outcomes of \<open>saveDatabase\<close> and \<open>db.close\<close>.
\<close>

definition init :: "load_result \<Rightarrow> bool \<Rightarrow> LokiExtentMetadata \<Rightarrow> error option \<times> LokiExtentMetadata" where
  "init disk save_ok s =
     (case disk of
        LoadError \<Rightarrow> (Some DbError, s)
      | _ \<Rightarrow>
         (let s1 = (case disk of Loaded c \<Rightarrow> s\<lparr>db := c\<rparr> | _ \<Rightarrow> s);
              s2 = (if db s1 = None then s1\<lparr>db := Some addCollection\<rparr> else s1)
          in if save_ok then (None, s2\<lparr>initialized := True, closed := False\<rparr>)
             else (Some DbError, s2)))"

definition close :: "bool \<Rightarrow> LokiExtentMetadata \<Rightarrow> error option \<times> LokiExtentMetadata" where
  "close close_ok s = (if close_ok then (None, s\<lparr>closed := True\<rparr>) else (Some DbError, s))"

text \<open>
  \<open>updateExtent\<close>: \<open>coll.findOne\<close> on a null collection is a TypeError.  When a document
  is found, its \<open>size\<close> and \<open>LastModifyInMS\<close> are assigned and the document is written
  back.
\<close>

definition updateExtent :: "LokiExtentMetadata \<Rightarrow> IExtentModel \<Rightarrow> error + LokiExtentMetadata" where
  "updateExtent s extent =
     (case db s of
        None \<Rightarrow> Inl TypeError
      | Some coll \<Rightarrow>
         (case findOne (by_id (id_ext extent)) coll of
            None \<Rightarrow> Inr (s\<lparr>db := Some (insert_doc extent coll)\<rparr>)
          | Some d \<Rightarrow>
             Inr (s\<lparr>db := Some (update_doc
                    (d\<lparr>obj := (obj d)\<lparr>size_ext := size_ext extent,
                                        LastModifyInMS := LastModifyInMS extent\<rparr>\<rparr>) coll)\<rparr>)))"

text \<open>
  The query object \<open>listExtents\<close> builds from its arguments.  \<open>queryTime\<close> stands for
  the number \<open>queryTime.getTime()\<close>.  \<open>UnmodifiedTime\<close> is 0 when omitted, the bound on
  \<open>LastModifyInMS\<close> is \<open>queryTime.getTime() - UnmodifiedTime * 1000\<close>, computed in
  doubles, and the marker is the \<open>$gt\<close> bound on \<open>$loki\<close>.
\<close>

definition listExtents_query ::
  "string option \<Rightarrow> number option \<Rightarrow> number option \<Rightarrow> number option \<Rightarrow> query" where
  "listExtents_query i marker queryTime UnmodifiedTime =
     (let u = (case UnmodifiedTime of None \<Rightarrow> Num 0 | Some u \<Rightarrow> u)
      in \<lparr>q_id = i,
          q_LastModifyInMS_lt =
            (case queryTime of None \<Rightarrow> None | Some t \<Rightarrow> Some (js_sub t (js_mul u (Num 1000)))),
          q_loki_gt = marker\<rparr>)"

text \<open>
  \<open>listExtents\<close>: \<open>maxResults\<close> is 5000 when omitted.  When the page is empty and
  \<open>docs.length < maxResults\<close> is false (\<open>maxResults\<close> is 0, negative or \<open>NaN\<close>),
  \<open>docs[docs.length - 1]\<close> is undefined and reading its \<open>$loki\<close> is a TypeError.  The
  \<open>nextMarker\<close> returned is the number \<open>$loki\<close> of the last document of the page.
\<close>

definition listExtents ::
  "LokiExtentMetadata \<Rightarrow> string option \<Rightarrow> number option \<Rightarrow> number option \<Rightarrow> number option
     \<Rightarrow> number option \<Rightarrow> error + (doc list \<times> number option)" where
  "listExtents s i maxResults marker queryTime UnmodifiedTime =
     (let n = (case maxResults of None \<Rightarrow> Num 5000 | Some n \<Rightarrow> n);
          q = listExtents_query i marker queryTime UnmodifiedTime
      in case db s of
           None \<Rightarrow> Inl TypeError
         | Some coll \<Rightarrow>
            (let docs = limit n (find_docs q coll)
             in if length_less (length docs) n then Inr (docs, None)
                else (case docs of
                        [] \<Rightarrow> Inl TypeError
                      | _ \<Rightarrow> Inr (docs, Some (Num (of_int (loki (last docs))))))))"

definition deleteExtent :: "LokiExtentMetadata \<Rightarrow> string \<Rightarrow> error + LokiExtentMetadata" where
  "deleteExtent s extentId =
     (case db s of
        None \<Rightarrow> Inl TypeError
      | Some coll \<Rightarrow> Inr (s\<lparr>db := Some (findAndRemove (by_id extentId) coll)\<rparr>))"

text \<open>\<open>getExtentPersistencyId\<close>: \<open>doc.persistencyId\<close> on a null \<open>doc\<close> is a TypeError.\<close>

definition getExtentPersistencyId :: "LokiExtentMetadata \<Rightarrow> string \<Rightarrow> error + string" where
  "getExtentPersistencyId s extentId =
     (case db s of
        None \<Rightarrow> Inl TypeError
      | Some coll \<Rightarrow>
         (case findOne (by_id extentId) coll of
            None \<Rightarrow> Inl TypeError
          | Some d \<Rightarrow> Inr (persistencyId (obj d))))"

subsection \<open>The invariant of a catalog and the paging loop\<close>

text \<open>
  What holds of every collection the document store builds: sequence numbers grow along
  the array and do not exceed \<open>maxId\<close>; and of every extent collection that
  \<open>updateExtent\<close> and \<open>deleteExtent\<close> have built: no two documents share an id.
\<close>

definition wf_collection :: "collection \<Rightarrow> bool" where
  "wf_collection c =
     (sorted_wrt (<) (map loki (data c)) \<and>
      list_all (\<lambda>d. loki d \<le> maxId c) (data c) \<and>
      distinct (map (\<lambda>d. id_ext (obj d)) (data c)))"

text \<open>
  A page limit that is a count: the number \<open>n\<close>, for a natural number \<open>n\<close>.  The page
  size of such a call of \<open>listExtents\<close> is \<open>n\<close>, and 5000 when the limit is omitted.
\<close>

definition count :: "nat \<Rightarrow> number" where
  "count n = Num (of_nat n)"

definition page_limit :: "nat option \<Rightarrow> nat" where
  "page_limit k = (case k of None \<Rightarrow> 5000 | Some n \<Rightarrow> n)"



section \<open>Blob service properties (ServiceHandler.ts)\<close>

subsection \<open>Data\<close>

text \<open>
  Modelled from the spec: the generated models (\<open>Models.StorageServiceProperties\<close> and
  the types of its members) are not among the sources.  The spec's service properties
  are CORS rules, default service version, hour and minute metrics, logging, static
  website and delete retention policy; the members of each are those that the literal
  \<open>defaultServiceProperties\<close> of ServiceHandler.ts gives a value.  A member that is
  \<open>undefined\<close> is \<open>None\<close>.  The type of a CORS rule is a parameter.  Several of the
  source's objects have a member \<open>enabled\<close>, \<open>retentionPolicy\<close> or \<open>version\<close>: the
  suffix says which object (\<open>rp\<close>, \<open>m\<close>, \<open>l\<close>, \<open>sw\<close>); \<open>read\<close> and \<open>write\<close> of
  the logging object carry it too.
\<close>

record RetentionPolicy =
  enabled_rp :: bool

record Metrics =
  enabled_m :: bool
  retentionPolicy_m :: RetentionPolicy
  version_m :: string

record Logging =
  deleteProperty :: bool
  read_l :: bool
  retentionPolicy_l :: RetentionPolicy
  version_l :: string
  write_l :: bool

record StaticWebsite =
  enabled_sw :: bool

record 'c StorageServiceProperties =
  cors :: "'c list option"
  defaultServiceVersion :: "string option"
  deleteRetentionPolicy :: "RetentionPolicy option"
  hourMetrics :: "Metrics option"
  logging :: "Logging option"
  minuteMetrics :: "Metrics option"
  staticWebsite :: "StaticWebsite option"

text \<open>The stored document: the service properties with the account they belong to.\<close>

record 'c ServicePropertiesModel = "'c StorageServiceProperties" +
  accountName :: string

text \<open>The response of \<open>getProperties\<close>: the document spread, with three more members.\<close>

record 'c ServiceGetPropertiesResponse = "'c ServicePropertiesModel" +
  requestId :: "string option"
  statusCode :: nat
  version :: string

record ServiceSetPropertiesResponse =
  requestId_set :: "string option"
  statusCode_set :: nat
  version_set :: string

text \<open>
  Modelled from the spec: the data store behind \<open>this.dataStore\<close> is not among the
  sources.  The spec's service properties store keeps a single document per account,
  keyed by account name, with the operations \<open>get(account)\<close> (\<open>undefined\<close> when there
  is no document) and \<open>upsert(properties)\<close>.
\<close>

type_synonym 'c ServicePropertiesStore = "string \<rightharpoonup> 'c ServicePropertiesModel"

definition getServiceProperties ::
  "'c ServicePropertiesStore \<Rightarrow> string \<Rightarrow> 'c ServicePropertiesModel option" where
  "getServiceProperties dataStore account = dataStore account"

definition updateServiceProperties ::
  "'c ServicePropertiesStore \<Rightarrow> 'c ServicePropertiesModel \<Rightarrow> 'c ServicePropertiesStore" where
  "updateServiceProperties dataStore properties = dataStore(accountName properties \<mapsto> properties)"

subsection \<open>The handler\<close>

text \<open>
  \<open>BLOB_API_VERSION\<close> (utils/constants.ts) is not among the sources: it is a parameter
  of everything that reads it.
\<close>

definition defaultServiceProperties :: "string \<Rightarrow> 'c StorageServiceProperties" where
  "defaultServiceProperties BLOB_API_VERSION =
     \<lparr>cors = Some [],
      defaultServiceVersion = Some BLOB_API_VERSION,
      deleteRetentionPolicy = None,
      hourMetrics = Some \<lparr>enabled_m = False, retentionPolicy_m = \<lparr>enabled_rp = False\<rparr>,
                          version_m = ''1.0''\<rparr>,
      logging = Some \<lparr>deleteProperty = True, read_l = True,
                      retentionPolicy_l = \<lparr>enabled_rp = False\<rparr>, version_l = ''1.0'',
                      write_l = True\<rparr>,
      minuteMetrics = Some \<lparr>enabled_m = False, retentionPolicy_m = \<lparr>enabled_rp = False\<rparr>,
                            version_m = ''1.0''\<rparr>,
      staticWebsite = Some \<lparr>enabled_sw = False\<rparr>\<rparr>"

text \<open>The object spread \<open>{ ...p, accountName }\<close>.\<close>

definition with_accountName ::
  "'c StorageServiceProperties \<Rightarrow> string \<Rightarrow> 'c ServicePropertiesModel" where
  "with_accountName p a =
     \<lparr>cors = cors p, defaultServiceVersion = defaultServiceVersion p,
      deleteRetentionPolicy = deleteRetentionPolicy p, hourMetrics = hourMetrics p,
      logging = logging p, minuteMetrics = minuteMetrics p, staticWebsite = staticWebsite p,
      accountName = a\<rparr>"

text \<open>
  JavaScript's \<open>a || b\<close>: \<open>b\<close> when \<open>a\<close> is falsy.  An object is never falsy; of the
  strings, the empty one is.
\<close>

definition or_object :: "'a option \<Rightarrow> 'a option \<Rightarrow> 'a option" where
  "or_object a b = (case a of None \<Rightarrow> b | Some x \<Rightarrow> Some x)"

definition or_string :: "string option \<Rightarrow> string option \<Rightarrow> string option" where
  "or_string a b = (case a of None \<Rightarrow> b | Some x \<Rightarrow> if x = '''' then b else Some x)"

text \<open>
  \<open>setProperties\<close>.  \<open>bodyHasCors\<close> is whether the parsed request body has a property
  \<open>cors\<close> or \<open>Cors\<close>; \<open>contextID\<close> is \<open>context.contextID\<close>.  The result is the data
  store after \<open>updateServiceProperties\<close> and the response.
\<close>

definition setProperties ::
  "string \<Rightarrow> 'c ServicePropertiesStore \<Rightarrow> string \<Rightarrow> string option \<Rightarrow> bool
     \<Rightarrow> 'c StorageServiceProperties
     \<Rightarrow> 'c ServicePropertiesStore \<times> ServiceSetPropertiesResponse" where
  "setProperties BLOB_API_VERSION dataStore account contextID bodyHasCors storageServiceProperties =
     (let ssp = (if \<not> bodyHasCors then storageServiceProperties\<lparr>cors := None\<rparr>
                 else storageServiceProperties);
          p0 = (case getServiceProperties dataStore account of
                  None \<Rightarrow> with_accountName (defaultServiceProperties BLOB_API_VERSION) account
                | Some p \<Rightarrow> p);
          p1 = p0\<lparr>cors := (case cors ssp of None \<Rightarrow> cors p0 | Some c \<Rightarrow> Some c)\<rparr>;
          p2 = p1\<lparr>defaultServiceVersion :=
                     or_string (defaultServiceVersion ssp) (defaultServiceVersion p1)\<rparr>;
          p3 = p2\<lparr>deleteRetentionPolicy :=
                     or_object (deleteRetentionPolicy ssp) (deleteRetentionPolicy p2)\<rparr>;
          p4 = p3\<lparr>hourMetrics := or_object (hourMetrics ssp) (hourMetrics p3)\<rparr>;
          p5 = p4\<lparr>logging := or_object (logging ssp) (logging p4)\<rparr>;
          p6 = p5\<lparr>minuteMetrics := or_object (minuteMetrics ssp) (minuteMetrics p5)\<rparr>;
          p7 = p6\<lparr>staticWebsite := or_object (staticWebsite ssp) (staticWebsite p6)\<rparr>
      in (updateServiceProperties dataStore (p7\<lparr>accountName := account\<rparr>),
          \<lparr>requestId_set = contextID, statusCode_set = 202, version_set = BLOB_API_VERSION\<rparr>))"

definition getProperties ::
  "string \<Rightarrow> 'c ServicePropertiesStore \<Rightarrow> string \<Rightarrow> string option
     \<Rightarrow> 'c ServiceGetPropertiesResponse" where
  "getProperties BLOB_API_VERSION dataStore account contextID =
     (let p0 = (case getServiceProperties dataStore account of
                  None \<Rightarrow> with_accountName (defaultServiceProperties BLOB_API_VERSION) account
                | Some p \<Rightarrow> p);
          p1 = (if cors p0 = None then p0\<lparr>cors := Some []\<rparr> else p0)
      in \<lparr>cors = cors p1, defaultServiceVersion = defaultServiceVersion p1,
          deleteRetentionPolicy = deleteRetentionPolicy p1, hourMetrics = hourMetrics p1,
          logging = logging p1, minuteMetrics = minuteMetrics p1,
          staticWebsite = staticWebsite p1, accountName = accountName p1,
          requestId = contextID, statusCode = 200, version = BLOB_API_VERSION\<rparr>)"

section \<open>Example data\<close>

subsection \<open>A catalog of three extents\<close>

text \<open>
  The extents \<open>a\<close>, \<open>b\<close> and \<open>c\<close>, inserted in this order together with a fourth
  that was deleted since (the sequence number 3 is missing), last modified at 1000,
  2000 and 3000.
\<close>

abbreviation doc_a :: doc where
  "doc_a \<equiv> \<lparr>loki = 1,
       obj = \<lparr>id_ext = ''a'', persistencyId = ''p1'', path = ''a'',
              size_ext = 10, LastModifyInMS = 1000\<rparr>\<rparr>"

abbreviation doc_b :: doc where
  "doc_b \<equiv> \<lparr>loki = 2,
       obj = \<lparr>id_ext = ''b'', persistencyId = ''p1'', path = ''b'',
              size_ext = 20, LastModifyInMS = 2000\<rparr>\<rparr>"

abbreviation doc_c :: doc where
  "doc_c \<equiv> \<lparr>loki = 4,
       obj = \<lparr>id_ext = ''c'', persistencyId = ''p1'', path = ''c'',
              size_ext = 30, LastModifyInMS = 3000\<rparr>\<rparr>"

abbreviation three_extents :: collection where
  "three_extents \<equiv> \<lparr>data = [doc_a, doc_b, doc_c], maxId = 4\<rparr>"

abbreviation catalog_of_three :: LokiExtentMetadata where
  "catalog_of_three \<equiv> \<lparr>db = Some three_extents, initialized = True, closed = False\<rparr>"

subsection \<open>Stored service properties\<close>

text \<open>
  The document of the account \<open>acct\<close>, with two CORS rules (the rules are numbers
  here), and the store that holds it; a request that supplies an empty CORS list, a
  retention policy and hour metrics; and the store in which only the account
  \<open>other\<close> has set its properties, with that request.
\<close>

abbreviation stored_acct :: "nat ServicePropertiesModel" where
  "stored_acct \<equiv>
     \<lparr>cors = Some [1, 2 :: nat], defaultServiceVersion = Some ''2018-03-28'',
        deleteRetentionPolicy = None,
        hourMetrics = Some \<lparr>enabled_m = False, retentionPolicy_m = \<lparr>enabled_rp = False\<rparr>,
                             version_m = ''1.0''\<rparr>,
        logging = None,
        minuteMetrics = Some \<lparr>enabled_m = False, retentionPolicy_m = \<lparr>enabled_rp = False\<rparr>,
                             version_m = ''1.0''\<rparr>,
        staticWebsite = Some \<lparr>enabled_sw = False\<rparr>,
        accountName = ''acct''\<rparr>"

abbreviation store_acct :: "nat ServicePropertiesStore" where
  "store_acct \<equiv> [''acct'' \<mapsto> stored_acct]"

abbreviation request_acct :: "nat StorageServiceProperties" where
  "request_acct \<equiv>
     \<lparr>cors = Some [], defaultServiceVersion = None,
        deleteRetentionPolicy = Some \<lparr>enabled_rp = True\<rparr>,
        hourMetrics = Some \<lparr>enabled_m = True, retentionPolicy_m = \<lparr>enabled_rp = False\<rparr>,
                             version_m = ''1.0''\<rparr>,
        logging = None,
        minuteMetrics = None,
        staticWebsite = None\<rparr>"

abbreviation store_other :: "nat ServicePropertiesStore" where
  "store_other \<equiv> fst (setProperties ''2019-02-02'' Map.empty ''other'' None True request_acct)"

section \<open>Properties of the extent metadata catalog\<close>

subsection \<open>Lookups and the invariant\<close>

lemma matches_by_id: "matches (by_id i) d = (id_ext (obj d) = i)"
  by (simp add: matches_def by_id_def)

lemma findOne_by_id_None:
  "(findOne (by_id i) c = None) = (i \<notin> (\<lambda>d. id_ext (obj d)) ` set (data c))"
  by (auto simp: findOne_def find_None_iff matches_by_id)

lemma findOne_by_id_Some:
  "findOne (by_id i) c = Some d \<Longrightarrow> d \<in> set (data c) \<and> id_ext (obj d) = i"
  by (auto simp: findOne_def find_Some_iff matches_by_id)

lemma sorted_loki_distinct: "sorted_wrt (<) (map loki ds) \<Longrightarrow> distinct (map loki ds)"
  using strict_sorted_iff by blast

lemma update_found:
  assumes "distinct (map loki ds)" "distinct (map (\<lambda>d. id_ext (obj d)) ds)"
    and "d \<in> set ds" "id_ext (obj d) = i"
  shows "map (\<lambda>x. if loki x = loki d then f d else x) ds
       = map (\<lambda>x. if id_ext (obj x) = i then f x else x) ds"
proof (rule map_cong[OF refl])
  fix x assume x: "x \<in> set ds"
  have a: "loki x = loki d \<longleftrightarrow> x = d"
    using assms(1,3) x by (meson distinct_map inj_onD)
  have b: "id_ext (obj x) = i \<longleftrightarrow> x = d"
    using assms(2,3,4) x by (metis (mono_tags, lifting) distinct_map inj_onD)
  show "(if loki x = loki d then f d else x) = (if id_ext (obj x) = i then f x else x)"
    using a b by auto
qed

lemma updateExtent_result:
  assumes wf: "wf_collection coll" and s: "db s = Some coll"
  shows "updateExtent s e = Inr (s\<lparr>db := Some
           (if id_ext e \<in> (\<lambda>d. id_ext (obj d)) ` set (data coll)
            then coll\<lparr>data := map (\<lambda>d. if id_ext (obj d) = id_ext e
                                      then d\<lparr>obj := (obj d)\<lparr>size_ext := size_ext e,
                                                   LastModifyInMS := LastModifyInMS e\<rparr>\<rparr>
                                      else d) (data coll)\<rparr>
            else coll\<lparr>data := data coll @ [\<lparr>loki = maxId coll + 1, obj = e\<rparr>],
                       maxId := maxId coll + 1\<rparr>)\<rparr>)"
proof (cases "findOne (by_id (id_ext e)) coll")
  case None
  have nin: "id_ext e \<notin> (\<lambda>d. id_ext (obj d)) ` set (data coll)"
    using None by (simp add: findOne_by_id_None)
  show ?thesis using s None nin
    by (simp add: updateExtent_def insert_doc_def)
next
  case (Some d)
  note fs = findOne_by_id_Some[OF Some]
  have dl: "distinct (map loki (data coll))" and di: "distinct (map (\<lambda>d. id_ext (obj d)) (data coll))"
    using wf by (auto simp: wf_collection_def sorted_loki_distinct)
  have "id_ext e \<in> (\<lambda>d. id_ext (obj d)) ` set (data coll)" using fs by force
  moreover have "update_doc (d\<lparr>obj := (obj d)\<lparr>size_ext := size_ext e, LastModifyInMS := LastModifyInMS e\<rparr>\<rparr>) coll
     = coll\<lparr>data := map (\<lambda>d. if id_ext (obj d) = id_ext e
                                      then d\<lparr>obj := (obj d)\<lparr>size_ext := size_ext e,
                                                   LastModifyInMS := LastModifyInMS e\<rparr>\<rparr>
                                      else d) (data coll)\<rparr>"
    unfolding update_doc_def
    using update_found[OF dl di, of d "id_ext e" "\<lambda>d. d\<lparr>obj := (obj d)\<lparr>size_ext := size_ext e, LastModifyInMS := LastModifyInMS e\<rparr>\<rparr>"] fs
    by simp
  ultimately show ?thesis using s Some by (simp add: updateExtent_def)
qed

lemma wf_addCollection: "wf_collection addCollection"
  by (simp add: wf_collection_def addCollection_def)

lemma wf_insert_doc:
  assumes "wf_collection c" "id_ext e \<notin> (\<lambda>d. id_ext (obj d)) ` set (data c)"
  shows "wf_collection (insert_doc e c)"
proof -
  have le: "\<forall>d\<in>set (data c). loki d \<le> maxId c"
    using assms(1) by (simp add: wf_collection_def list_all_iff)
  then have "\<forall>d\<in>set (data c). loki d < maxId c + 1" by force
  moreover have "list_all (\<lambda>d. loki d \<le> maxId c + 1) (data c)"
    using le by (force simp: list_all_iff)
  ultimately show ?thesis
    using assms by (simp add: wf_collection_def insert_doc_def sorted_wrt_append)
qed

lemma wf_update_fields:
  assumes "wf_collection c" "\<And>d. loki (f d) = loki d" "\<And>d. id_ext (obj (f d)) = id_ext (obj d)"
  shows "wf_collection (c\<lparr>data := map f (data c)\<rparr>)"
  using assms by (simp add: wf_collection_def comp_def list_all_iff)

lemma wf_findAndRemove: "wf_collection c \<Longrightarrow> wf_collection (findAndRemove q c)"
  by (simp add: wf_collection_def findAndRemove_def sorted_wrt_map sorted_wrt_filter
      distinct_map_filter list_all_iff)

lemma wf_updateExtent:
  assumes "wf_collection coll" "db s = Some coll" "updateExtent s e = Inr s'"
  shows "\<exists>coll'. db s' = Some coll' \<and> wf_collection coll'"
proof (cases "id_ext e \<in> (\<lambda>d. id_ext (obj d)) ` set (data coll)")
  case True
  have "wf_collection (coll\<lparr>data := map (\<lambda>d. if id_ext (obj d) = id_ext e
                                      then d\<lparr>obj := (obj d)\<lparr>size_ext := size_ext e,
                                                   LastModifyInMS := LastModifyInMS e\<rparr>\<rparr>
                                      else d) (data coll)\<rparr>)"
    by (rule wf_update_fields[OF assms(1)]) simp_all
  then show ?thesis
    using updateExtent_result[OF assms(1,2), of e] assms(3) True by auto
next
  case False
  then show ?thesis
    using updateExtent_result[OF assms(1,2), of e] assms(3) wf_insert_doc[OF assms(1) False]
    by (auto simp: insert_doc_def)
qed

lemma wf_deleteExtent:
  assumes "wf_collection coll" "db s = Some coll" "deleteExtent s x = Inr s'"
  shows "\<exists>coll'. db s' = Some coll' \<and> wf_collection coll'"
  using assms wf_findAndRemove[of coll "by_id x"] by (auto simp: deleteExtent_def)

subsection \<open>Upsert\<close>

text \<open>
  Claim C1, as the code has it.  On a catalog that satisfies the invariant,
  \<open>updateExtent e\<close> appends \<open>e\<close> with the next sequence number when no document has
  the id of \<open>e\<close>; when one has, it assigns that document's \<open>size\<close> and
  \<open>LastModifyInMS\<close> from \<open>e\<close> and nothing else: \<open>persistencyId\<close>, \<open>path\<close> and
  \<open>$loki\<close> stay as stored, and so does every other document.
\<close>

theorem updateExtent_upsert:
  assumes "wf_collection coll" and "db s = Some coll"
  shows "(id_ext e \<notin> (\<lambda>d. id_ext (obj d)) ` set (data coll) \<longrightarrow>
            updateExtent s e =
              Inr (s\<lparr>db := Some (coll\<lparr>data := data coll @ [\<lparr>loki = maxId coll + 1, obj = e\<rparr>],
                                        maxId := maxId coll + 1\<rparr>)\<rparr>)) \<and>
         (id_ext e \<in> (\<lambda>d. id_ext (obj d)) ` set (data coll) \<longrightarrow>
            updateExtent s e =
              Inr (s\<lparr>db := Some (coll\<lparr>data :=
                     map (\<lambda>d. if id_ext (obj d) = id_ext e
                              then d\<lparr>obj := (obj d)\<lparr>size_ext := size_ext e,
                                                    LastModifyInMS := LastModifyInMS e\<rparr>\<rparr>
                              else d) (data coll)\<rparr>)\<rparr>))"
proof (cases "id_ext e \<in> (\<lambda>d. id_ext (obj d)) ` set (data coll)")
  case True
  then show ?thesis
    using updateExtent_result[OF assms, of e] by simp
next
  case False
  then show ?thesis
    using updateExtent_result[OF assms, of e] by simp
qed

text \<open>
  The update of an extent that is present, at a concrete catalog of three extents.
\<close>

theorem updateExtent_upsert_witness:
  "wf_collection three_extents \<and>
   updateExtent catalog_of_three
     \<lparr>id_ext = ''b'', persistencyId = ''p2'', path = ''moved'',
      size_ext = 25, LastModifyInMS = 2500\<rparr>
   = Inr \<lparr>db = Some \<lparr>data = [doc_a,
                                \<lparr>loki = 2,
                                 obj = \<lparr>id_ext = ''b'', persistencyId = ''p1'', path = ''b'',
                                        size_ext = 25, LastModifyInMS = 2500\<rparr>\<rparr>,
                                doc_c],
                        maxId = 4\<rparr>,
          initialized = True, closed = False\<rparr> \<and>
   updateExtent catalog_of_three
     \<lparr>id_ext = ''d'', persistencyId = ''p2'', path = ''d'',
      size_ext = 0, LastModifyInMS = 4000\<rparr>
   = Inr \<lparr>db = Some \<lparr>data = [doc_a, doc_b, doc_c,
                                \<lparr>loki = 5,
                                 obj = \<lparr>id_ext = ''d'', persistencyId = ''p2'', path = ''d'',
                                        size_ext = 0, LastModifyInMS = 4000\<rparr>\<rparr>],
                        maxId = 5\<rparr>,
          initialized = True, closed = False\<rparr>"
  using updateExtent_upsert[where coll = "three_extents" and s = "catalog_of_three"
      and e = "\<lparr>id_ext = ''b'', persistencyId = ''p2'', path = ''moved'',
             size_ext = 25, LastModifyInMS = 2500\<rparr>"]
    updateExtent_upsert[where coll = "three_extents" and s = "catalog_of_three"
      and e = "\<lparr>id_ext = ''d'', persistencyId = ''p2'', path = ''d'',
             size_ext = 0, LastModifyInMS = 4000\<rparr>"]
  by (simp add: wf_collection_def)

text \<open>
  Claim C1 as stated fails: the stored extent \<open>a\<close> lives at destination \<open>p1\<close>, path
  \<open>a\<close>; after \<open>updateExtent\<close> with destination \<open>p2\<close> and path \<open>moved\<close> the size and
  the time are the new ones, the destination and the path are the old ones.
\<close>

theorem updateExtent_keeps_location_counterexample:
  "updateExtent \<lparr>db = Some \<lparr>data = [doc_a], maxId = 1\<rparr>, initialized = True, closed = False\<rparr>
     \<lparr>id_ext = ''a'', persistencyId = ''p2'', path = ''moved'',
      size_ext = 11, LastModifyInMS = 1100\<rparr>
   = Inr \<lparr>db = Some \<lparr>data = [\<lparr>loki = 1,
                                 obj = \<lparr>id_ext = ''a'', persistencyId = ''p1'', path = ''a'',
                                        size_ext = 11, LastModifyInMS = 1100\<rparr>\<rparr>],
                        maxId = 1\<rparr>,
          initialized = True, closed = False\<rparr>"
  by (simp add: updateExtent_def findOne_def matches_def by_id_def update_doc_def)

subsection \<open>Numbers\<close>

text \<open>
  Rounding leaves an integer of magnitude at most \<open>2 ^ 53\<close> as it is: \<open>bit_length\<close>
  brackets a positive number between two powers of 2, which gives its exponent, and
  the quotient by the unit of that exponent is an integer.
\<close>

lemma bit_length_bounds:
  "0 < m \<Longrightarrow> 2 ^ (bit_length m - 1) \<le> m \<and> m < 2 ^ bit_length m"
proof (induction m rule: bit_length.induct)
  case (1 n)
  show ?case
  proof (cases "n div 2 = 0")
    case True
    then have "n = 1" using "1.prems" by (simp add: div_eq_0_iff) 
    then show ?thesis by (simp add: bit_length.simps)
  next
    case False
    then have pos: "0 < n div 2" by simp
    have ih: "2 ^ (bit_length (n div 2) - 1) \<le> n div 2 \<and> n div 2 < 2 ^ bit_length (n div 2)"
      using "1.IH"[OF _ pos] "1.prems" by simp
    have bl: "bit_length n = Suc (bit_length (n div 2))"
      using "1.prems" by (subst bit_length.simps) simp
    have bpos: "0 < bit_length (n div 2)"
      using pos by (subst bit_length.simps) simp
    define A :: nat where "A = 2 ^ (bit_length (n div 2) - 1)"
    define h where "h = n div 2"
    have p1: "(2::nat) ^ (bit_length n - 1) = 2 * A"
      using bl bpos by (cases "bit_length (n div 2)") (simp_all add: A_def)
    have p2: "(2::nat) ^ bit_length n = 4 * A"
      using bl bpos by (cases "bit_length (n div 2)") (simp_all add: A_def)
    have h1: "A \<le> h" and h2: "h < 2 * A"
      using ih bpos by (cases "bit_length (n div 2)"; simp add: A_def h_def)+
    have n1: "2 * h \<le> n" and n2: "n < 2 * h + 2"
      unfolding h_def by presburger+
    have "2 * A \<le> n" using h1 n1 by linarith
    moreover have "n < 4 * A" using h2 n2 by linarith
    ultimately show ?thesis by (simp only: p1 p2)
  qed
qed

lemma round_half_even_int [simp]: "round_half_even (of_int k) = k"
  by (simp add: round_half_even_def)

lemma floor_log2_nat:
  assumes "0 < m"
  shows "floor_log2 (of_nat m) = int (bit_length m) - 1"
proof -
  have q: "quotient_of (of_nat m :: rat) = (int m, 1)"
  proof -
    have "quotient_of (of_int (int m)) = (int m, 1)"
      by (simp add: of_int_rat quotient_of_Fract Rat.normalize_def)
    then show ?thesis by simp
  qed
  have b1: "bit_length (Suc 0) = 1"
    by (simp add: bit_length.simps)
  have bp: "0 < bit_length m"
    using assms by (subst bit_length.simps) simp
  have "(2::nat) ^ (bit_length m - 1) \<le> m"
    using bit_length_bounds[OF assms] by simp
  then have "(of_nat (2 ^ (bit_length m - 1)) :: rat) \<le> of_nat m"
    using of_nat_le_iff by blast
  then have "pow2 (int (bit_length m) - 1) \<le> of_nat m"
    using bp by (simp add: pow2_def nat_diff_distrib')
  then show ?thesis
    by (simp add: floor_log2_def q b1 Let_def)
qed

lemma round_double_nat:
  assumes "0 < m" "m \<le> 2 ^ 53"
  shows "round_double (of_nat m) = Num (of_nat m)" and "round_double (- of_nat m) = Num (- of_nat m)"
proof -
  define e where "e = bit_length m - 1"
  have bp: "0 < bit_length m"
    using assms(1) by (subst bit_length.simps) simp
  have fl: "floor_log2 (of_nat m) = int e"
    using floor_log2_nat[OF assms(1)] bp by (simp add: e_def)
  have lo: "2 ^ e \<le> m" using bit_length_bounds[OF assms(1)] by (simp add: e_def)
  then have "(2::nat) ^ e \<le> 2 ^ 53" using assms(2) by simp
  then have e53: "e \<le> 53" by (rule power_le_imp_le_exp[rotated]) simp
  define q where "q = max (int e - 52) (- 1074)"
  have qe: "q = int e - 52" by (simp add: q_def)
  have r: "of_int (round_half_even (of_nat m / pow2 q)) * pow2 q = (of_nat m :: rat)"
  proof (cases "e \<le> 52")
    case True
    then have pq: "pow2 q = 1 / 2 ^ (52 - e)"
      by (simp add: pow2_def qe nat_diff_distrib') 
    have "of_nat m / pow2 q = (of_int (int (m * 2 ^ (52 - e))) :: rat)"
      by (simp add: pq)
    then have "round_half_even (of_nat m / pow2 q) = int (m * 2 ^ (52 - e))"
      by (simp only: round_half_even_int)
    then show ?thesis by (simp add: pq)
  next
    case False
    then have e: "e = 53" using e53 by simp
    then have m: "m = 2 ^ 53" using lo assms(2) by simp
    have pq: "pow2 q = 2" by (simp add: pow2_def qe e)
    have "of_nat m / pow2 q = (of_int (2 ^ 52) :: rat)"
      by (simp add: pq m)
    then have "round_half_even (of_nat m / pow2 q) = 2 ^ 52"
      by (simp only: round_half_even_int)
    then show ?thesis by (simp add: pq m)
  qed
  have "(of_nat m :: rat) \<le> 2 ^ 53"
    using assms(2) by (metis of_nat_le_iff of_nat_numeral of_nat_power)
  also have "\<dots> < 2 ^ 1024" by simp
  finally have small: "\<not> pow2 1024 \<le> (of_nat m :: rat)"
    by (simp add: pow2_def)
  have nz: "(of_nat m :: rat) \<noteq> 0" "0 < (of_nat m :: rat)" using assms(1) by simp_all
  show "round_double (of_nat m) = Num (of_nat m)"
    using nz small r by (simp add: round_double_def fl Let_def q_def[symmetric])
  show "round_double (- of_nat m) = Num (- of_nat m)"
    using nz small r by (simp add: round_double_def fl Let_def q_def[symmetric])
qed

lemma round_double_int:
  assumes "\<bar>n\<bar> \<le> 2 ^ 53"
  shows "round_double (of_int n) = Num (of_int n)"
proof (cases "n = 0")
  case True
  then show ?thesis by (simp add: round_double_def)
next
  case False
  define m where "m = nat \<bar>n\<bar>"
  have m: "0 < m" "m \<le> 2 ^ 53"
    using False assms by (simp_all add: m_def nat_le_iff)
  show ?thesis
  proof (cases "0 < n")
    case True
    then have "of_int n = (of_nat m :: rat)" by (simp add: m_def)
    then show ?thesis using round_double_nat(1)[OF m] by simp
  next
    case False
    then have "of_int n = (- of_nat m :: rat)" using \<open>n \<noteq> 0\<close> by (simp add: m_def)
    then show ?thesis using round_double_nat(2)[OF m] by simp
  qed
qed

text \<open>
  So the bound \<open>queryTime.getTime() - UnmodifiedTime * 1000\<close> is computed exactly
  when both numbers are integers and neither the product nor the difference leaves
  that range.
\<close>

lemma js_mul_int:
  "\<bar>a * b\<bar> \<le> 2 ^ 53 \<Longrightarrow> js_mul (Num (of_int a)) (Num (of_int b)) = Num (of_int (a * b))"
  using round_double_int[of "a * b"] by simp

lemma js_sub_int:
  "\<bar>a - b\<bar> \<le> 2 ^ 53 \<Longrightarrow> js_sub (Num (of_int a)) (Num (of_int b)) = Num (of_int (a - b))"
  using round_double_int[of "a - b"] by simp

lemma bound_exact:
  assumes "\<bar>u * 1000\<bar> \<le> 2 ^ 53" "\<bar>t - u * 1000\<bar> \<le> 2 ^ 53"
  shows "js_sub (Num (of_int t)) (js_mul (Num (of_int u)) (Num 1000)) = Num (of_int (t - u * 1000))"
proof -
  have "js_mul (Num (of_int u)) (Num 1000) = Num (of_int (u * 1000))"
    using js_mul_int[of u 1000] assms(1) by simp
  then show ?thesis using js_sub_int[of t "u * 1000"] assms(2) by simp
qed

text \<open>
  Beyond that range a product is rounded.  The rules below evaluate \<open>bit_length\<close>
  and the integer part of a fraction on numerals; with them,
  \<open>72057594037931 * 1000\<close> is seen to round to a multiple of 16.
\<close>

lemma bit_length_numeral [simp]:
  "bit_length 0 = 0"
  "bit_length 1 = 1"
  "bit_length (Suc 0) = 1"
  "bit_length (numeral (Num.Bit0 k)) = Suc (bit_length (numeral k))"
  "bit_length (numeral (Num.Bit1 k)) = Suc (bit_length (numeral k))"
proof -
  show "bit_length 0 = 0" "bit_length 1 = 1" "bit_length (Suc 0) = 1"
    by (simp_all add: bit_length.simps)
  have "numeral (Num.Bit0 k) div 2 = (numeral k :: nat)"
    by (metis mult_2 nonzero_mult_div_cancel_left numeral_Bit0 zero_neq_numeral)
  then show "bit_length (numeral (Num.Bit0 k)) = Suc (bit_length (numeral k))"
    by (subst bit_length.simps) simp
  have "numeral (Num.Bit1 k) div 2 = (numeral k :: nat)"
    by simp
  then show "bit_length (numeral (Num.Bit1 k)) = Suc (bit_length (numeral k))"
    by (subst bit_length.simps) simp
qed


lemma floor_rat_numeral [simp]:
  "\<lfloor>numeral a / numeral b :: rat\<rfloor> = numeral a div numeral b"
  "\<lfloor>- (numeral a / numeral b) :: rat\<rfloor> = - numeral a div numeral b"
  using floor_divide_of_int_eq[of "numeral a" "numeral b", where 'a = rat]
    floor_divide_of_int_eq[of "- numeral a" "numeral b", where 'a = rat]
  by simp_all

lemma ceiling_rat_numeral [simp]:
  "\<lceil>numeral a / numeral b :: rat\<rceil> = - (- numeral a div numeral b)"
  "\<lceil>- (numeral a / numeral b) :: rat\<rceil> = - (numeral a div numeral b)"
  unfolding ceiling_def by simp_all

lemma ceiling_rat_neg_one [simp]: "\<lceil>- 1 :: rat\<rceil> = - 1"
  using ceiling_of_int[of "- 1", where 'a = rat] by simp

lemma pow2_1024_big: "x \<le> 2 ^ 64 \<Longrightarrow> \<not> pow2 1024 \<le> x"
proof -
  have "(2::rat) ^ 64 < 2 ^ 1024"
    by (rule power_strict_increasing) simp_all
  moreover have "pow2 1024 = 2 ^ 1024"
    by (simp add: pow2_def)
  ultimately show "x \<le> 2 ^ 64 \<Longrightarrow> \<not> pow2 1024 \<le> x"
    by simp
qed

lemma round_double_product: "round_double 72057594037931000 = Num 72057594037931008"
proof -
  have e: "floor_log2 72057594037931000 = 56"
    by (simp add: floor_log2_def pow2_def Let_def)
  have u: "pow2 4 = 16"
    by (simp add: pow2_def)
  have "\<not> pow2 1024 \<le> 72057594037931008"
    by (rule pow2_1024_big) simp
  then show ?thesis
    unfolding round_double_def Let_def
    by (simp add: e u round_half_even_def)
qed

lemma round_double_difference: "round_double (- 72057594037931008) = Num (- 72057594037931008)"
proof -
  have e: "floor_log2 72057594037931008 = 56"
    by (simp add: floor_log2_def pow2_def Let_def)
  have u: "pow2 4 = 16"
    by (simp add: pow2_def)
  have "\<not> pow2 1024 \<le> 72057594037931008"
    by (rule pow2_1024_big) simp
  then show ?thesis
    unfolding round_double_def Let_def
    by (simp add: e u round_half_even_def)
qed

text \<open>The comparisons and \<open>slice\<close> on integers and on counts.\<close>

lemma slice_end_count [simp]: "slice_end (count n) len = min n len"
  by (simp add: slice_end_def count_def)

lemma length_less_count [simp]: "length_less len (count n) = (len < n)"
  by (simp add: length_less_def count_def)

lemma slice_end_int:
  "slice_end (Num (of_int k)) len = (if k < 0 then nat (int len + k) else min (nat k) len)"
  by (simp add: slice_end_def)

lemma length_less_int: "length_less len (Num (of_int k)) = (int len < k)"
proof -
  have "(of_nat len :: rat) = of_int (int len)" by simp
  then show ?thesis unfolding length_less_def by (simp only: number.case of_int_less_iff)
qed

lemma loki_lt_int [simp]: "loki_lt a (Num (of_int b)) = (a < b)"
  by (simp add: loki_lt_def)

lemma loki_gt_int [simp]: "loki_gt a (Num (of_int b)) = (b < a)"
  by (simp add: loki_gt_def)

lemma loki_gt_mono: "loki_gt a m \<Longrightarrow> a < b \<Longrightarrow> loki_gt b m"
proof (cases m)
  case (Num r)
  assume "loki_gt a m" "a < b"
  then have "r < of_int a" "(of_int a :: rat) < of_int b" using Num by (simp_all add: loki_gt_def)
  then have "r < of_int b" by (rule less_trans)
  then show ?thesis using Num by (simp add: loki_gt_def)
qed (simp_all add: loki_gt_def)

subsection \<open>Pages\<close>

lemma limit_count [simp]: "limit (count n) ds = take n ds"
  by (simp add: limit_def min_def)

lemma limit_of_count: "(case map_option count k of None \<Rightarrow> Num 5000 | Some n \<Rightarrow> n) = count (page_limit k)"
  by (cases k) (simp_all add: count_def page_limit_def)

lemma page_body:
  assumes "0 < n"
  shows "(let docs = limit (count n) M
          in if length_less (length docs) (count n) then Inr (docs, None)
             else (case docs of
                     [] \<Rightarrow> Inl TypeError
                   | _ \<Rightarrow> Inr (docs, Some (Num (of_int (loki (last docs)))))))
       = Inr (take n M, if length (take n M) < n then None
                        else Some (Num (of_int (loki (last (take n M))))))"
proof (cases "take n M")
  case Nil
  then have "M = []" using assms by simp
  then show ?thesis using assms by (simp add: Let_def)
next
  case (Cons a list)
  then show ?thesis by (simp add: Let_def)
qed

lemma listExtents_page:
  assumes "db s = Some coll" "k \<noteq> Some 0"
  shows "listExtents s i (map_option count k) marker qt um =
     Inr (take (page_limit k) (find_docs (listExtents_query i marker qt um) coll),
          if length (take (page_limit k) (find_docs (listExtents_query i marker qt um) coll))
               < page_limit k
          then None
          else Some (Num (of_int (loki (last (take (page_limit k)
                                   (find_docs (listExtents_query i marker qt um) coll)))))))"
proof -
  have pos: "0 < page_limit k"
    using assms(2) by (cases k) (auto simp: page_limit_def)
  have "listExtents s i (map_option count k) marker qt um =
     (let docs = limit (count (page_limit k)) (find_docs (listExtents_query i marker qt um) coll)
          in if length_less (length docs) (count (page_limit k)) then Inr (docs, None)
             else (case docs of
                     [] \<Rightarrow> Inl TypeError
                   | _ \<Rightarrow> Inr (docs, Some (Num (of_int (loki (last docs)))))))"
    unfolding listExtents_def limit_of_count Let_def using assms(1) by simp
  then show ?thesis
    by (simp only: page_body[OF pos])
qed

lemma matches_listExtents_query:
  "matches (listExtents_query i marker qt um) =
     (\<lambda>d. (\<forall>j. i = Some j \<longrightarrow> id_ext (obj d) = j) \<and>
      (\<forall>t. qt = Some t \<longrightarrow>
           loki_lt (LastModifyInMS (obj d))
             (js_sub t (js_mul (case um of None \<Rightarrow> Num 0 | Some u \<Rightarrow> u) (Num 1000)))) \<and>
      (\<forall>m. marker = Some m \<longrightarrow> loki_gt (loki d) m))"
  by (rule ext) (auto simp: matches_def listExtents_query_def split: option.splits)

lemma listExtents_body:
  assumes "db s = Some coll"
    and "qty = (case maxResults of None \<Rightarrow> Num 5000 | Some n \<Rightarrow> n)"
    and "page = limit qty (find_docs (listExtents_query i marker qt um) coll)"
  shows "listExtents s i maxResults marker qt um =
     (if length_less (length page) qty then Inr (page, None)
      else (case page of
              [] \<Rightarrow> Inl TypeError
            | _ \<Rightarrow> Inr (page, Some (Num (of_int (loki (last page)))))))"
  unfolding listExtents_def Let_def assms(2) assms(3) using assms(1) by simp

text \<open>
  Claim C4.  On an initialised catalog the page of a call of \<open>listExtents\<close> is
  \<open>slice(0, limit)\<close> of the matching documents, in catalog order.  A document matches
  when it has the id asked for (when one is given), its \<open>LastModifyInMS\<close> is \<open>$lt\<close>
  the bound \<open>queryTime.getTime() - UnmodifiedTime * 1000\<close>, computed in doubles (when
  \<open>queryTime\<close> is given; \<open>UnmodifiedTime\<close> is 0 when omitted), and its \<open>$loki\<close> is
  \<open>$gt\<close> the marker (when one is given).  \<open>limit\<close> is \<open>maxResults\<close>, 5000 when
  omitted; when it is a natural number \<open>n\<close> the page is the first \<open>n\<close> matching
  documents, so no longer than \<open>n\<close>.  The call fails only with a TypeError, and only
  when the page is empty and \<open>0 < limit\<close> is false.  Last, the bound is the integer
  \<open>t - u * 1000\<close>, and \<open>$lt\<close> the comparison of integers with it, whenever
  \<open>queryTime.getTime()\<close> is the integer \<open>t\<close>, \<open>UnmodifiedTime\<close> the integer \<open>u\<close> (0
  when omitted) and neither \<open>u * 1000\<close> nor \<open>t - u * 1000\<close> exceeds \<open>2 ^ 53\<close> in
  magnitude.
\<close>

theorem listExtents_filter:
  assumes "db s = Some coll"
  shows "(let M = filter (\<lambda>d. (\<forall>j. i = Some j \<longrightarrow> id_ext (obj d) = j) \<and>
                             (\<forall>t. qt = Some t \<longrightarrow>
                                loki_lt (LastModifyInMS (obj d))
                                  (js_sub t (js_mul (case um of None \<Rightarrow> Num 0 | Some u \<Rightarrow> u)
                                               (Num 1000)))) \<and>
                             (\<forall>m. marker = Some m \<longrightarrow> loki_gt (loki d) m)) (data coll);
              qty = (case maxResults of None \<Rightarrow> Num 5000 | Some n \<Rightarrow> n);
              page = take (slice_end qty (length M)) M
          in case listExtents s i maxResults marker qt um of
               Inl e \<Rightarrow> e = TypeError \<and> page = [] \<and> \<not> length_less 0 qty
             | Inr (docs, nm) \<Rightarrow>
                 docs = page \<and> (\<forall>n. qty = count n \<longrightarrow> docs = take n M \<and> length docs \<le> n)) \<and>
         (\<forall>t u a. (um = Some (Num (of_int u)) \<or> um = None \<and> u = 0) \<and>
                  \<bar>u * 1000\<bar> \<le> 2 ^ 53 \<and> \<bar>t - u * 1000\<bar> \<le> 2 ^ 53 \<longrightarrow>
            loki_lt a (js_sub (Num (of_int t))
                         (js_mul (case um of None \<Rightarrow> Num 0 | Some u \<Rightarrow> u) (Num 1000)))
              = (a < t - u * 1000))"
    (is "?page \<and> ?exact")
proof -
  define M where "M = find_docs (listExtents_query i marker qt um) coll"
  define qty where "qty = (case maxResults of None \<Rightarrow> Num 5000 | Some n \<Rightarrow> n)"
  define page where "page = take (slice_end qty (length M)) M"
  have "page = limit qty M" by (simp add: limit_def page_def)
  then have res: "listExtents s i maxResults marker qt um =
      (if length_less (length page) qty then Inr (page, None)
       else (case page of
               [] \<Rightarrow> Inl TypeError
             | _ \<Rightarrow> Inr (page, Some (Num (of_int (loki (last page)))))))"
    unfolding M_def by (rule listExtents_body[OF assms qty_def])
  have c: "\<forall>n. qty = count n \<longrightarrow> page = take n M \<and> length page \<le> n"
    by (simp add: page_def min_def)
  have "case listExtents s i maxResults marker qt um of
          Inl e \<Rightarrow> e = TypeError \<and> page = [] \<and> \<not> length_less 0 qty
        | Inr (docs, nm) \<Rightarrow>
            docs = page \<and> (\<forall>n. qty = count n \<longrightarrow> docs = take n M \<and> length docs \<le> n)"
  proof (cases "length_less (length page) qty")
    case True
    then show ?thesis using res c by simp
  next
    case False
    show ?thesis
    proof (cases page)
      case Nil
      then show ?thesis using res False by simp
    next
      case (Cons a list)
      then show ?thesis using res False c by simp
    qed
  qed
  then have p: ?page
    unfolding M_def qty_def page_def find_docs_def matches_listExtents_query Let_def .
  have e: ?exact
  proof (intro allI impI)
    fix t u a
    assume h: "(um = Some (Num (of_int u)) \<or> um = None \<and> u = 0) \<and>
               \<bar>u * 1000\<bar> \<le> 2 ^ 53 \<and> \<bar>t - u * 1000\<bar> \<le> 2 ^ 53"
    then have "(case um of None \<Rightarrow> Num 0 | Some u \<Rightarrow> u) = Num (of_int u)"
      by auto
    moreover have "js_sub (Num (of_int t)) (js_mul (Num (of_int u)) (Num 1000))
                 = Num (of_int (t - u * 1000))"
      using h by (intro bound_exact) simp_all
    ultimately show "loki_lt a (js_sub (Num (of_int t))
                         (js_mul (case um of None \<Rightarrow> Num 0 | Some u \<Rightarrow> u) (Num 1000)))
              = (a < t - u * 1000)"
      by (simp only: loki_lt_int)
  qed
  from p e show ?thesis by (rule conjI)
qed

text \<open>
  The extents last modified before \<open>5000 - 2 * 1000\<close>, the bound being exact here:
  \<open>a\<close> and \<open>b\<close>, but not \<open>c\<close>, last modified at 3000.
\<close>

theorem listExtents_filter_witness:
  "listExtents catalog_of_three None None None (Some (Num 5000)) (Some (Num 2))
   = Inr ([doc_a, doc_b], None)"
  using listExtents_filter[where s = "catalog_of_three" and coll = "three_extents"
      and i = None and maxResults = None and marker = None
      and qt = "Some (Num 5000)" and um = "Some (Num 2)"]
    round_double_int[of 2000] round_double_int[of 3000]
  by (simp add: listExtents_def listExtents_query_def find_docs_def matches_def limit_def
      loki_lt_def slice_end_def length_less_def Let_def)

text \<open>
  Claim C4 as stated fails in two ways.  With the limit \<open>-1\<close> the page is
  \<open>slice(0, -1)\<close> of the three extents: two documents, not at most \<open>-1\<close>.  And the
  bound is rounded: with \<open>queryTime.getTime() = 0\<close> and
  \<open>UnmodifiedTime = 72057594037931\<close> the product is the double \<open>72057594037931008\<close>,
  so that an extent last modified at \<open>-72057594037931008\<close>, which is strictly below
  \<open>0 - 72057594037931 * 1000\<close>, is not listed.
\<close>

theorem listExtents_limit_rounding_counterexample:
  "listExtents catalog_of_three None (Some (Num (- 1))) None None None
   = Inr ([doc_a, doc_b], Some (Num 2)) \<and>
   listExtents
     \<lparr>db = Some \<lparr>data = [\<lparr>loki = 1,
                            obj = \<lparr>id_ext = ''a'', persistencyId = ''p1'', path = ''a'',
                                   size_ext = 10, LastModifyInMS = - 72057594037931008\<rparr>\<rparr>],
                  maxId = 1\<rparr>,
      initialized = True, closed = False\<rparr>
     None None None (Some (Num 0)) (Some (Num 72057594037931))
   = Inr ([], None) \<and>
   (- 72057594037931008 :: int) < 0 - 72057594037931 * 1000"
  by (simp add: listExtents_def listExtents_query_def find_docs_def matches_def limit_def
      loki_lt_def slice_end_def length_less_def Let_def
      round_double_product round_double_difference)

lemma filter_above_last_prefix:
  assumes "sorted_wrt (<) (map loki (ys @ [l]))"
  shows "filter (\<lambda>d. loki l < loki d) (ys @ [l]) = []"
  using assms by (auto simp: sorted_wrt_append filter_empty_conv)

lemma filter_above_last_take:
  assumes srt: "sorted_wrt (<) (map loki xs)" and n: "0 < n" "n \<le> length xs"
  shows "filter (\<lambda>d. loki (last (take n xs)) < loki d) xs = drop n xs"
proof -
  let ?P = "take n xs" and ?D = "drop n xs"
  have ne: "?P \<noteq> []" using n by auto
  have split: "xs = ?P @ ?D" by simp
  have s2: "sorted_wrt (<) (map loki (?P @ ?D))" using srt by simp
  then have sP: "sorted_wrt (<) (map loki ?P)"
    and cross: "\<forall>p\<in>set ?P. \<forall>d\<in>set ?D. loki p < loki d"
    unfolding map_append sorted_wrt_append by auto
  have "sorted_wrt (<) (map loki (butlast ?P @ [last ?P]))"
    using sP by (simp only: append_butlast_last_id[OF ne])
  then have "filter (\<lambda>d. loki (last ?P) < loki d) (butlast ?P @ [last ?P]) = []"
    by (rule filter_above_last_prefix)
  then have fP: "filter (\<lambda>d. loki (last ?P) < loki d) ?P = []"
    by (simp only: append_butlast_last_id[OF ne])
  have "last ?P \<in> set ?P" using ne by simp
  then have fD: "filter (\<lambda>d. loki (last ?P) < loki d) ?D = ?D"
    using cross by (simp add: filter_id_conv)
  have "filter (\<lambda>d. loki (last ?P) < loki d) xs
      = filter (\<lambda>d. loki (last ?P) < loki d) ?P @ filter (\<lambda>d. loki (last ?P) < loki d) ?D"
    by (metis split filter_append)
  then show ?thesis using fP fD by simp
qed

lemma sorted_find_docs:
  "sorted_wrt (<) (map loki (data coll)) \<Longrightarrow> sorted_wrt (<) (map loki (find_docs q coll))"
  by (simp add: find_docs_def sorted_wrt_map sorted_wrt_filter)

lemma matches_marker_step:
  assumes "\<And>m0. marker = Some m0 \<Longrightarrow> loki_gt m m0"
  shows "matches (listExtents_query i (Some (Num (of_int m))) qt um) d
       = (matches (listExtents_query i marker qt um) d \<and> m < loki d)"
proof (cases marker)
  case None
  then show ?thesis by (auto simp: matches_def listExtents_query_def)
next
  case (Some m0)
  have "m < loki d \<Longrightarrow> loki_gt (loki d) m0"
    using assms[OF Some] by (rule loki_gt_mono)
  then show ?thesis using Some by (auto simp: matches_def listExtents_query_def)
qed

lemma find_docs_next_marker:
  assumes srt: "sorted_wrt (<) (map loki (data coll))"
    and n: "0 < n" "n \<le> length (find_docs (listExtents_query i marker qt um) coll)"
  shows "find_docs (listExtents_query i
            (Some (Num (of_int (loki (last (take n (find_docs (listExtents_query i marker qt um)
                                                       coll))))))) qt um) coll
       = drop n (find_docs (listExtents_query i marker qt um) coll)"
proof -
  let ?M = "find_docs (listExtents_query i marker qt um) coll"
  define m where "m = loki (last (take n ?M))"
  have "take n ?M \<noteq> []" using n by auto
  then have "last (take n ?M) \<in> set (take n ?M)" by simp
  then have "last (take n ?M) \<in> set ?M" by (rule in_set_takeD)
  then have above: "\<And>m0. marker = Some m0 \<Longrightarrow> loki_gt m m0"
    by (simp add: m_def find_docs_def matches_listExtents_query)
  have "filter (matches (listExtents_query i (Some (Num (of_int m))) qt um)) (data coll)
      = filter (\<lambda>d. m < loki d) (filter (matches (listExtents_query i marker qt um)) (data coll))"
    unfolding filter_filter
    by (rule filter_cong[OF refl]) (rule matches_marker_step[OF above])
  then have "find_docs (listExtents_query i (Some (Num (of_int m))) qt um) coll
           = filter (\<lambda>d. m < loki d) ?M"
    by (simp only: find_docs_def)
  also have "\<dots> = drop n ?M"
    unfolding m_def by (rule filter_above_last_take[OF sorted_find_docs[OF srt] n])
  finally show ?thesis unfolding m_def .
qed

text \<open>
  Claim C2, as the code has it.  For a page limit that is a positive integer \<open>n\<close> (or
  omitted, which is 5000), the call returns a page; \<open>nextMarker\<close> is present exactly
  when the page holds \<open>n\<close> documents, and is then the \<open>$loki\<close> of the last document
  of the page; when \<open>nextMarker\<close> is absent the page holds every document that
  matches, so nothing is left to list.  The converse is what fails: a page that ends
  the listing and is full carries a marker; on a catalog that satisfies the
  invariant, the call made with that marker returns the empty page and no marker.
  For any limit whatever, a call that returns carries no \<open>nextMarker\<close> exactly when
  \<open>docs.length < limit\<close>, and a \<open>nextMarker\<close> is the \<open>$loki\<close> of the last document
  of the page.
\<close>

theorem listExtents_nextMarker:
  assumes "db s = Some coll" "k \<noteq> Some 0"
  shows "(\<exists>docs nm. listExtents s i (map_option count k) marker qt um = Inr (docs, nm) \<and>
            (nm \<noteq> None \<longleftrightarrow> length docs = (case k of None \<Rightarrow> 5000 | Some n \<Rightarrow> n)) \<and>
            (nm \<noteq> None \<longrightarrow> docs \<noteq> [] \<and> nm = Some (Num (of_int (loki (last docs))))) \<and>
            (nm = None \<longrightarrow> docs = find_docs (listExtents_query i marker qt um) coll) \<and>
            (nm \<noteq> None \<and> docs = find_docs (listExtents_query i marker qt um) coll \<and>
             wf_collection coll \<longrightarrow>
               listExtents s i (map_option count k) nm qt um = Inr ([], None))) \<and>
         (\<forall>maxResults docs nm.
            listExtents s i maxResults marker qt um = Inr (docs, nm) \<longrightarrow>
              (nm = None \<longleftrightarrow>
                 length_less (length docs) (case maxResults of None \<Rightarrow> Num 5000 | Some n \<Rightarrow> n)) \<and>
              (nm \<noteq> None \<longrightarrow> docs \<noteq> [] \<and> nm = Some (Num (of_int (loki (last docs))))))"
    (is "?counted \<and> ?any")
proof -
  let ?n = "page_limit k"
  let ?M = "find_docs (listExtents_query i marker qt um) coll"
  define docs where "docs = take ?n ?M"
  define nm where "nm = (if length docs < ?n then None else Some (Num (of_int (loki (last docs)))))"
  have pos: "0 < ?n"
    using assms(2) by (cases k) (auto simp: page_limit_def)
  have res: "listExtents s i (map_option count k) marker qt um = Inr (docs, nm)"
    using listExtents_page[OF assms, of i marker qt um] by (simp add: docs_def nm_def)
  have le: "length docs \<le> ?n" by (simp add: docs_def)
  have a: "nm \<noteq> None \<longleftrightarrow> length docs = ?n"
    using le by (auto simp: nm_def)
  have b: "nm \<noteq> None \<longrightarrow> docs \<noteq> [] \<and> nm = Some (Num (of_int (loki (last docs))))"
    using pos by (auto simp: nm_def)
  have c: "nm = None \<longrightarrow> docs = ?M"
  proof
    assume "nm = None"
    then have "length docs < ?n" by (auto simp: nm_def split: if_splits)
    then have "length ?M < ?n" unfolding docs_def by simp
    then show "docs = ?M" unfolding docs_def by simp
  qed
  have d: "nm \<noteq> None \<and> docs = ?M \<and> wf_collection coll \<longrightarrow>
             listExtents s i (map_option count k) nm qt um = Inr ([], None)"
  proof
    assume h: "nm \<noteq> None \<and> docs = ?M \<and> wf_collection coll"
    then have full: "length ?M = ?n" using a by simp
    have srt: "sorted_wrt (<) (map loki (data coll))"
      using h by (simp add: wf_collection_def)
    have nm': "nm = Some (Num (of_int (loki (last (take ?n ?M)))))"
      using h b by (simp add: docs_def)
    have "find_docs (listExtents_query i nm qt um) coll = drop ?n ?M"
      unfolding nm' using find_docs_next_marker[OF srt pos, of i marker qt um] full by simp
    then have "find_docs (listExtents_query i nm qt um) coll = []"
      using full by simp
    then show "listExtents s i (map_option count k) nm qt um = Inr ([], None)"
      using listExtents_page[OF assms, of i nm qt um] pos by simp
  qed
  have counted: ?counted
    using res a[unfolded page_limit_def] b c d by blast
  have any: ?any
  proof (intro allI impI)
    fix maxResults docs nm
    assume r: "listExtents s i maxResults marker qt um = Inr (docs, nm)"
    define qty where "qty = (case maxResults of None \<Rightarrow> Num 5000 | Some n \<Rightarrow> n)"
    define page where "page = limit qty (find_docs (listExtents_query i marker qt um) coll)"
    note body = listExtents_body[OF assms(1) qty_def page_def]
    have "(nm = None \<longleftrightarrow> length_less (length docs) qty) \<and>
          (nm \<noteq> None \<longrightarrow> docs \<noteq> [] \<and> nm = Some (Num (of_int (loki (last docs)))))"
    proof (cases "length_less (length page) qty")
      case True
      then show ?thesis using body r by simp
    next
      case False
      show ?thesis
      proof (cases page)
        case Nil
        then show ?thesis using body r False by simp
      next
        case (Cons x xs)
        then show ?thesis using body r False by auto
      qed
    qed
    then show "(nm = None \<longleftrightarrow>
                 length_less (length docs) (case maxResults of None \<Rightarrow> Num 5000 | Some n \<Rightarrow> n)) \<and>
               (nm \<noteq> None \<longrightarrow> docs \<noteq> [] \<and> nm = Some (Num (of_int (loki (last docs)))))"
      unfolding qty_def .
  qed
  from counted any show ?thesis by (rule conjI)
qed

text \<open>
  Three extents listed two at a time: the first page is full and carries the marker 2,
  the second, asked for with that marker, is short and carries none.
\<close>

theorem listExtents_nextMarker_witness:
  "listExtents catalog_of_three None (Some (Num 2)) None None None
   = Inr ([doc_a, doc_b], Some (Num 2)) \<and>
   listExtents catalog_of_three None (Some (Num 2)) (Some (Num 2)) None None
   = Inr ([doc_c], None)"
  using listExtents_nextMarker[where s = "catalog_of_three" and coll = "three_extents"
      and k = "Some 2" and i = None and marker = None and qt = None and um = None]
  by (simp add: listExtents_def listExtents_query_def find_docs_def matches_def limit_def
      loki_gt_def slice_end_def length_less_def Let_def)

text \<open>
  Claim C2 as stated fails on its last clause, and on its first for a limit that is
  not a count.  The catalog holds two extents and the limit is 2: the first page holds
  both, so it is the last page of the listing, and its \<open>nextMarker\<close> is present; the
  call with that marker returns the empty page.  With the limit \<open>-1\<close> the page of the
  three extents holds two documents, not \<open>-1\<close>, and carries a marker.  (With the
  limit \<open>1.5\<close> the page holds one document and no marker, two extents being left to
  list: the limit has to be an integer for an absent marker to mean the last page.)
\<close>

theorem listExtents_full_last_page_counterexample:
  "listExtents \<lparr>db = Some \<lparr>data = [doc_a, doc_b], maxId = 2\<rparr>, initialized = True, closed = False\<rparr>
     None (Some (Num 2)) None None None
   = Inr ([doc_a, doc_b], Some (Num 2)) \<and>
   listExtents \<lparr>db = Some \<lparr>data = [doc_a, doc_b], maxId = 2\<rparr>, initialized = True, closed = False\<rparr>
     None (Some (Num 2)) (Some (Num 2)) None None
   = Inr ([], None) \<and>
   listExtents catalog_of_three None (Some (Num (- 1))) None None None
   = Inr ([doc_a, doc_b], Some (Num 2)) \<and>
   listExtents catalog_of_three None (Some (Num (3 / 2))) None None None
   = Inr ([doc_a], None)"
  by (simp add: listExtents_def listExtents_query_def find_docs_def matches_def limit_def
      loki_gt_def slice_end_def length_less_def Let_def)

subsection \<open>The paging loop\<close>











subsection \<open>Delete\<close>

text \<open>
  Claim C5.  On an initialised catalog \<open>deleteExtent x\<close> succeeds and leaves exactly
  the documents whose id is not \<open>x\<close>; when no document has the id \<open>x\<close> the catalog
  is unchanged; and deleting \<open>x\<close> again from the result returns the same result.
\<close>

theorem deleteExtent_idempotent:
  assumes "db s = Some coll"
  shows "deleteExtent s x =
           Inr (s\<lparr>db := Some (coll\<lparr>data := filter (\<lambda>d. id_ext (obj d) \<noteq> x) (data coll)\<rparr>)\<rparr>) \<and>
         (x \<notin> (\<lambda>d. id_ext (obj d)) ` set (data coll) \<longrightarrow> deleteExtent s x = Inr s) \<and>
         (case deleteExtent s x of Inl e \<Rightarrow> False | Inr s' \<Rightarrow> deleteExtent s' x = Inr s')"
proof -
  have m: "(\<lambda>d. \<not> matches (by_id x) d) = (\<lambda>d. id_ext (obj d) \<noteq> x)"
    by (rule ext) (simp add: matches_by_id)
  have a: "deleteExtent s x =
           Inr (s\<lparr>db := Some (coll\<lparr>data := filter (\<lambda>d. id_ext (obj d) \<noteq> x) (data coll)\<rparr>)\<rparr>)"
    using assms by (simp add: deleteExtent_def findAndRemove_def m)
  have b: "x \<notin> (\<lambda>d. id_ext (obj d)) ` set (data coll) \<longrightarrow> deleteExtent s x = Inr s"
  proof
    assume "x \<notin> (\<lambda>d. id_ext (obj d)) ` set (data coll)"
    then have "filter (\<lambda>d. id_ext (obj d) \<noteq> x) (data coll) = data coll"
      by (auto simp: filter_id_conv)
    then show "deleteExtent s x = Inr s" using a assms by simp
  qed
  have c: "deleteExtent (s\<lparr>db := Some (coll\<lparr>data := filter (\<lambda>d. id_ext (obj d) \<noteq> x) (data coll)\<rparr>)\<rparr>) x
         = Inr (s\<lparr>db := Some (coll\<lparr>data := filter (\<lambda>d. id_ext (obj d) \<noteq> x) (data coll)\<rparr>)\<rparr>)"
    by (simp add: deleteExtent_def findAndRemove_def m)
  show ?thesis using a b c by simp
qed

text \<open>Deleting the extent \<open>b\<close>, and deleting it again.\<close>

theorem deleteExtent_idempotent_witness:
  "deleteExtent catalog_of_three ''b''
   = Inr \<lparr>db = Some \<lparr>data = [doc_a, doc_c], maxId = 4\<rparr>, initialized = True, closed = False\<rparr> \<and>
   deleteExtent \<lparr>db = Some \<lparr>data = [doc_a, doc_c], maxId = 4\<rparr>, initialized = True, closed = False\<rparr> ''b''
   = Inr \<lparr>db = Some \<lparr>data = [doc_a, doc_c], maxId = 4\<rparr>, initialized = True, closed = False\<rparr>"
  using deleteExtent_idempotent[where s = "catalog_of_three"
      and coll = "three_extents" and x = "''b''"]
  by (simp add: deleteExtent_def findAndRemove_def matches_def by_id_def)

subsection \<open>Point lookup\<close>

text \<open>
  Claim C6, as the code has it.  On a catalog that satisfies the invariant,
  \<open>getExtentPersistencyId\<close> returns the \<open>persistencyId\<close> of the stored document with
  the id asked for; when no document has that id, \<open>findOne\<close> returns null and reading
  \<open>persistencyId\<close> of it is the TypeError of the runtime: the method raises no error
  of its own.
\<close>

theorem getExtentPersistencyId_lookup:
  assumes "db s = Some coll" "wf_collection coll"
  shows "(\<forall>d\<in>set (data coll). getExtentPersistencyId s (id_ext (obj d)) = Inr (persistencyId (obj d))) \<and>
         (x \<notin> (\<lambda>d. id_ext (obj d)) ` set (data coll) \<longrightarrow> getExtentPersistencyId s x = Inl TypeError)"
proof -
  have di: "distinct (map (\<lambda>d. id_ext (obj d)) (data coll))"
    using assms(2) by (simp add: wf_collection_def)
  have a: "getExtentPersistencyId s (id_ext (obj d)) = Inr (persistencyId (obj d))"
    if d: "d \<in> set (data coll)" for d
  proof (cases "findOne (by_id (id_ext (obj d))) coll")
    case None
    then show ?thesis using d by (simp add: findOne_by_id_None)
  next
    case (Some d')
    then have "d' \<in> set (data coll)" "id_ext (obj d') = id_ext (obj d)"
      using findOne_by_id_Some by blast+
    then have "d' = d" using di d by (meson distinct_map inj_onD)
    then show ?thesis using Some assms(1) by (simp add: getExtentPersistencyId_def)
  qed
  have b: "x \<notin> (\<lambda>d. id_ext (obj d)) ` set (data coll) \<longrightarrow> getExtentPersistencyId s x = Inl TypeError"
    using assms(1) by (simp add: getExtentPersistencyId_def findOne_by_id_None[symmetric])
  show ?thesis using a b by blast
qed

text \<open>A lookup that finds its extent and one that does not.\<close>

theorem getExtentPersistencyId_lookup_witness:
  "wf_collection three_extents \<and>
   getExtentPersistencyId catalog_of_three ''b'' = Inr ''p1'' \<and>
   getExtentPersistencyId catalog_of_three ''z'' = Inl TypeError"
  using getExtentPersistencyId_lookup[where s = "catalog_of_three"
      and coll = "three_extents" and x = "''z''"]
  by (simp add: wf_collection_def)

text \<open>
  Claim C6 as stated fails: on the empty catalog that \<open>init\<close> has just created, the
  lookup of an id ends in TypeError, the only error the method can end in.
\<close>

theorem getExtentPersistencyId_missing_counterexample:
  "getExtentPersistencyId (snd (init NoFile True new_LokiExtentMetadata)) ''a'' = Inl TypeError"
  by (simp add: getExtentPersistencyId_def init_def new_LokiExtentMetadata_def addCollection_def
      findOne_def)

subsection \<open>The flags \<open>initialized\<close> and \<open>closed\<close>\<close>

text \<open>
  Claim C9, as the code has it.  No operation of the catalog reads \<open>initialized\<close> or
  \<open>closed\<close>: whatever the two flags are set to, each operation returns what it
  returns otherwise (and the state it returns carries the flags along).  On the object
  as the constructor leaves it there is no collection, and each operation ends in the
  TypeError of calling a method of null.
\<close>

theorem operations_ignore_flags:
  "updateExtent new_LokiExtentMetadata e = Inl TypeError \<and>
   listExtents new_LokiExtentMetadata i n marker qt um = Inl TypeError \<and>
   deleteExtent new_LokiExtentMetadata x = Inl TypeError \<and>
   getExtentPersistencyId new_LokiExtentMetadata x = Inl TypeError \<and>
   updateExtent (s\<lparr>initialized := a, closed := b\<rparr>) e
     = map_sum id (\<lambda>t. t\<lparr>initialized := a, closed := b\<rparr>) (updateExtent s e) \<and>
   listExtents (s\<lparr>initialized := a, closed := b\<rparr>) i n marker qt um = listExtents s i n marker qt um \<and>
   deleteExtent (s\<lparr>initialized := a, closed := b\<rparr>) x
     = map_sum id (\<lambda>t. t\<lparr>initialized := a, closed := b\<rparr>) (deleteExtent s x) \<and>
   getExtentPersistencyId (s\<lparr>initialized := a, closed := b\<rparr>) x = getExtentPersistencyId s x"
  by (simp add: updateExtent_def listExtents_def deleteExtent_def getExtentPersistencyId_def
      new_LokiExtentMetadata_def split: option.splits)

text \<open>A lookup before \<open>init\<close>, and one on a catalog whose flags say closed.\<close>

theorem operations_ignore_flags_witness:
  "getExtentPersistencyId new_LokiExtentMetadata ''a'' = Inl TypeError \<and>
   getExtentPersistencyId \<lparr>db = Some three_extents, initialized = True, closed = True\<rparr> ''a'' = Inr ''p1''"
  using operations_ignore_flags[where e = "obj doc_a"
      and i = None and n = None and marker = None and qt = None and um = None and x = "''a''"
      and s = "catalog_of_three"
      and a = True and b = True]
  by (simp add: getExtentPersistencyId_def findOne_def matches_def by_id_def)

text \<open>
  Claim C9 as stated fails.  After \<open>init\<close> and \<open>close\<close>, \<open>isClosed\<close> is true and
  \<open>updateExtent\<close> succeeds, inserting the extent; before \<open>init\<close> it fails, with
  TypeError.
\<close>

theorem operations_after_close_counterexample:
  "isClosed (snd (close True (snd (init NoFile True new_LokiExtentMetadata)))) \<and>
   updateExtent (snd (close True (snd (init NoFile True new_LokiExtentMetadata))))
     \<lparr>id_ext = ''a'', persistencyId = ''p1'', path = ''a'',
       size_ext = 10, LastModifyInMS = 1000\<rparr>
   = Inr \<lparr>db = Some \<lparr>data = [doc_a], maxId = 1\<rparr>, initialized = True, closed = True\<rparr> \<and>
   updateExtent new_LokiExtentMetadata
     \<lparr>id_ext = ''a'', persistencyId = ''p1'', path = ''a'',
       size_ext = 10, LastModifyInMS = 1000\<rparr>
   = Inl TypeError"
  by (simp add: isClosed_def close_def init_def new_LokiExtentMetadata_def addCollection_def
      updateExtent_def findOne_def insert_doc_def)

section \<open>Properties of the blob service properties\<close>

subsection \<open>What \<open>setProperties\<close> stores\<close>

lemma setProperties_stored:
  "getServiceProperties
     (fst (setProperties V dataStore account contextID bodyHasCors req)) account
   = Some
      (let base = (case getServiceProperties dataStore account of
                     None \<Rightarrow> with_accountName (defaultServiceProperties V) account
                   | Some p \<Rightarrow> p)
       in \<lparr>cors = (if bodyHasCors then (case cors req of None \<Rightarrow> cors base | Some c \<Rightarrow> Some c)
                   else cors base),
           defaultServiceVersion =
             (case defaultServiceVersion req of
                None \<Rightarrow> defaultServiceVersion base
              | Some v \<Rightarrow> if v = '''' then defaultServiceVersion base else Some v),
           deleteRetentionPolicy =
             (case deleteRetentionPolicy req of
                None \<Rightarrow> deleteRetentionPolicy base | Some v \<Rightarrow> Some v),
           hourMetrics = (case hourMetrics req of None \<Rightarrow> hourMetrics base | Some v \<Rightarrow> Some v),
           logging = (case logging req of None \<Rightarrow> logging base | Some v \<Rightarrow> Some v),
           minuteMetrics =
             (case minuteMetrics req of None \<Rightarrow> minuteMetrics base | Some v \<Rightarrow> Some v),
           staticWebsite =
             (case staticWebsite req of None \<Rightarrow> staticWebsite base | Some v \<Rightarrow> Some v),
           accountName = account\<rparr>)"
  by (simp add: setProperties_def getServiceProperties_def updateServiceProperties_def
      or_object_def or_string_def Let_def split: option.splits)

lemma setProperties_other_account:
  "other \<noteq> account \<Longrightarrow>
   getServiceProperties (fst (setProperties V dataStore account contextID bodyHasCors req)) other
   = getServiceProperties dataStore other"
  by (simp add: setProperties_def getServiceProperties_def updateServiceProperties_def Let_def)

text \<open>
  Claim C8, as the code has it.  After \<open>setProperties\<close> the document of the account is
  the stored one (the default one when none was stored) with each of
  \<open>deleteRetentionPolicy\<close>, \<open>hourMetrics\<close>, \<open>logging\<close>, \<open>minuteMetrics\<close> and
  \<open>staticWebsite\<close> replaced when the request supplies it and kept otherwise;
  \<open>defaultServiceVersion\<close> replaced when the request supplies a string that is not
  empty and kept otherwise; \<open>cors\<close> replaced, also by an empty list, when the body has
  a CORS element and the request carries a list, and kept otherwise.  The documents of
  the other accounts are unchanged.
\<close>

theorem setProperties_merge:
  "getServiceProperties
     (fst (setProperties V dataStore account contextID bodyHasCors req)) account
   = Some
      (let base = (case getServiceProperties dataStore account of
                     None \<Rightarrow> with_accountName (defaultServiceProperties V) account
                   | Some p \<Rightarrow> p)
       in \<lparr>cors = (if bodyHasCors then (case cors req of None \<Rightarrow> cors base | Some c \<Rightarrow> Some c)
                   else cors base),
           defaultServiceVersion =
             (case defaultServiceVersion req of
                None \<Rightarrow> defaultServiceVersion base
              | Some v \<Rightarrow> if v = '''' then defaultServiceVersion base else Some v),
           deleteRetentionPolicy =
             (case deleteRetentionPolicy req of
                None \<Rightarrow> deleteRetentionPolicy base | Some v \<Rightarrow> Some v),
           hourMetrics = (case hourMetrics req of None \<Rightarrow> hourMetrics base | Some v \<Rightarrow> Some v),
           logging = (case logging req of None \<Rightarrow> logging base | Some v \<Rightarrow> Some v),
           minuteMetrics =
             (case minuteMetrics req of None \<Rightarrow> minuteMetrics base | Some v \<Rightarrow> Some v),
           staticWebsite =
             (case staticWebsite req of None \<Rightarrow> staticWebsite base | Some v \<Rightarrow> Some v),
           accountName = account\<rparr>) \<and>
   (\<forall>other. other \<noteq> account \<longrightarrow>
      getServiceProperties (fst (setProperties V dataStore account contextID bodyHasCors req)) other
      = getServiceProperties dataStore other)"
  using setProperties_stored[of V dataStore account contextID bodyHasCors req]
    setProperties_other_account[of _ account V dataStore contextID bodyHasCors req]
  by blast

text \<open>
  A request with an empty CORS list, a retention policy and hour metrics: these three
  replace the stored values, the rest of the stored document is kept.
\<close>

theorem setProperties_merge_witness:
  "getServiceProperties
     (fst (setProperties ''2019-02-02''
       store_acct ''acct'' None True request_acct)) ''acct''
   = Some
     \<lparr>cors = Some [], defaultServiceVersion = Some ''2018-03-28'',
        deleteRetentionPolicy = Some \<lparr>enabled_rp = True\<rparr>,
        hourMetrics = Some \<lparr>enabled_m = True, retentionPolicy_m = \<lparr>enabled_rp = False\<rparr>,
                             version_m = ''1.0''\<rparr>,
        logging = None,
        minuteMetrics = Some \<lparr>enabled_m = False, retentionPolicy_m = \<lparr>enabled_rp = False\<rparr>,
                             version_m = ''1.0''\<rparr>,
        staticWebsite = Some \<lparr>enabled_sw = False\<rparr>,
        accountName = ''acct''\<rparr>"
  using setProperties_merge[where V = "''2019-02-02''"
      and dataStore = "store_acct"
      and account = "''acct''" and contextID = None and bodyHasCors = True
      and req = "request_acct"]
  by (simp add: getServiceProperties_def)

text \<open>
  Claim C8 as stated fails: a request that supplies the empty string as
  \<open>defaultServiceVersion\<close> leaves the stored version, since \<open>'' || v\<close> is \<open>v\<close>.
\<close>

theorem setProperties_empty_version_counterexample:
  "map_option defaultServiceVersion
     (getServiceProperties
       (fst (setProperties ''2019-02-02''
         store_acct
         ''acct'' None True
         \<lparr>cors = Some [], defaultServiceVersion = Some '''',
        deleteRetentionPolicy = None,
        hourMetrics = None,
        logging = None,
        minuteMetrics = None,
        staticWebsite = None\<rparr>)) ''acct'')
   = Some (Some ''2018-03-28'')"
  by (simp add: setProperties_def getServiceProperties_def updateServiceProperties_def
      or_object_def or_string_def Let_def)

subsection \<open>What \<open>getProperties\<close> returns\<close>

text \<open>
  Claim C7.  For an account with no stored document, \<open>getProperties\<close> answers with the
  default properties: no CORS rule, hour and minute metrics disabled, logging of read,
  write and delete enabled, static website disabled, and \<open>BLOB_API_VERSION\<close> as the
  default service version (and as the version of the response).
\<close>

theorem getProperties_default:
  assumes "getServiceProperties dataStore account = None"
  shows "cors (getProperties V dataStore account contextID) = Some [] \<and>
         map_option enabled_m (hourMetrics (getProperties V dataStore account contextID)) = Some False \<and>
         map_option enabled_m (minuteMetrics (getProperties V dataStore account contextID)) = Some False \<and>
         map_option (\<lambda>l. (read_l l, write_l l, deleteProperty l))
           (logging (getProperties V dataStore account contextID)) = Some (True, True, True) \<and>
         map_option enabled_sw (staticWebsite (getProperties V dataStore account contextID)) = Some False \<and>
         defaultServiceVersion (getProperties V dataStore account contextID) = Some V \<and>
         version (getProperties V dataStore account contextID) = V"
  using assms
  by (simp add: getProperties_def defaultServiceProperties_def with_accountName_def Let_def)

text \<open>
  An account without a document, in a store where another account has set its
  properties.
\<close>

theorem getProperties_default_witness:
  "getServiceProperties store_other ''acct'' = None \<and>
   cors (getProperties ''2019-02-02'' store_other ''acct'' None) = Some [] \<and>
   defaultServiceVersion (getProperties ''2019-02-02'' store_other ''acct'' None) = Some ''2019-02-02''"
  using getProperties_default[where dataStore = "store_other"
      and account = "''acct''" and V = "''2019-02-02''" and contextID = None]
  by (simp add: setProperties_def getServiceProperties_def updateServiceProperties_def Let_def)

text \<open>
  Claim C10.  The \<open>cors\<close> of the response is never undefined: it is the stored list,
  and the empty list when there is no stored document or the stored document has no
  \<open>cors\<close>.
\<close>

theorem getProperties_cors_defined:
  "cors (getProperties V dataStore account contextID)
   = Some (case getServiceProperties dataStore account of
             None \<Rightarrow> []
           | Some p \<Rightarrow> (case cors p of None \<Rightarrow> [] | Some rules \<Rightarrow> rules))"
  by (simp add: getProperties_def defaultServiceProperties_def with_accountName_def Let_def
      split: option.splits)

text \<open>A stored document without \<open>cors\<close>.\<close>

theorem getProperties_cors_defined_witness:
  "cors (getProperties ''2019-02-02''
     [''acct'' \<mapsto> stored_acct\<lparr>cors := None\<rparr>]
     ''acct'' None) = Some []"
  using getProperties_cors_defined[where V = "''2019-02-02''"
      and dataStore = "[''acct'' \<mapsto> stored_acct\<lparr>cors := None\<rparr>]"
      and account = "''acct''" and contextID = None]
  by (simp add: getServiceProperties_def)

end
